theory Spec2Isabelle
  imports Main "HOL-Library.Word"
begin

section \<open>Strings of the runtime\<close>

text \<open>
  The models of \<^verbatim>\<open>src/database/event.model.ts\<close>, of the booking model
  (\<^verbatim>\<open>src/unnamed/part_000\<close>) and of \<^verbatim>\<open>src/lib/mongodb.ts\<close>
  work on strings. A string of the runtime is a sequence of code units; here it is a HOL
  \<^typ>\<open>string\<close>, each character read as the code unit of the same number
  (U+0000 to U+00FF).

  \<open>isSpace\<close> is the class \<^verbatim>\<open>\s\<close> of a regular expression and the
  white space that \<^verbatim>\<open>String.prototype.trim\<close> strips, on that range: TAB, LF, VT,
  FF, CR, SPACE and NO-BREAK SPACE.
\<close>

definition isSpace :: "char \<Rightarrow> bool" where
  "isSpace c = (let n = (of_char c :: nat) in (9 \<le> n \<and> n \<le> 13) \<or> n = 32 \<or> n = 160)"

definition isDigit :: "char \<Rightarrow> bool" where
  "isDigit c = (let n = (of_char c :: nat) in 48 \<le> n \<and> n \<le> 57)"

definition isUpper :: "char \<Rightarrow> bool" where
  "isUpper c = (let n = (of_char c :: nat) in 65 \<le> n \<and> n \<le> 90)"

definition isLower :: "char \<Rightarrow> bool" where
  "isLower c = (let n = (of_char c :: nat) in 97 \<le> n \<and> n \<le> 122)"

text \<open>\<^verbatim>\<open>s.trim()\<close>: white space is stripped at both ends.\<close>

definition trim :: "string \<Rightarrow> string" where
  "trim s = rev (dropWhile isSpace (rev (dropWhile isSpace s)))"

text \<open>
  \<^verbatim>\<open>s.toLowerCase()\<close>: A to Z, and the capital letters U+00C0 to U+00DE but
  the multiplication sign U+00D7, move up by 32; every other code unit of the range
  stays.
\<close>

definition lowerChar :: "char \<Rightarrow> char" where
  "lowerChar c =
     (let n = (of_char c :: nat)
      in if (65 \<le> n \<and> n \<le> 90) \<or> (192 \<le> n \<and> n \<le> 222 \<and> n \<noteq> 215)
         then char_of (n + 32) else c)"

definition toLowerCase :: "string \<Rightarrow> string" where
  "toLowerCase s = map lowerChar s"

section \<open>Regular expressions\<close>

text \<open>
  The two patterns of the source, \<^verbatim>\<open>/^\d{4}-\d{2}-\d{2}$/\<close> and
  \<^verbatim>\<open>/^[^\s@]+@[^\s@]+\.[^\s@]+$/\<close>, are anchored at both ends and use
  character classes, sequence and \<^verbatim>\<open>+\<close>. \<open>rx_test\<close> is
  \<^verbatim>\<open>RegExp.prototype.test\<close> for an anchored pattern: it takes the derivative of
  the pattern by each character in turn and accepts when the rest matches the empty
  string.
\<close>

datatype rx =
    Fail
  | Empty
  | Class "char \<Rightarrow> bool"
  | Then rx rx
  | Or rx rx
  | Many rx

fun matches_empty :: "rx \<Rightarrow> bool" where
  "matches_empty Fail = False"
| "matches_empty Empty = True"
| "matches_empty (Class p) = False"
| "matches_empty (Then r s) = (matches_empty r \<and> matches_empty s)"
| "matches_empty (Or r s) = (matches_empty r \<or> matches_empty s)"
| "matches_empty (Many r) = True"

fun after :: "char \<Rightarrow> rx \<Rightarrow> rx" where
  "after c Fail = Fail"
| "after c Empty = Fail"
| "after c (Class p) = (if p c then Empty else Fail)"
| "after c (Then r s) =
     (if matches_empty r then Or (Then (after c r) s) (after c s) else Then (after c r) s)"
| "after c (Or r s) = Or (after c r) (after c s)"
| "after c (Many r) = Then (after c r) (Many r)"

fun rx_test :: "rx \<Rightarrow> string \<Rightarrow> bool" where
  "rx_test r [] = matches_empty r"
| "rx_test r (c # cs) = rx_test (after c r) cs"

text \<open>\<^verbatim>\<open>r+\<close> is one \<open>r\<close> and then any number of them.\<close>

definition one_or_more :: "rx \<Rightarrow> rx" where
  "one_or_more r = Then r (Many r)"

definition lit :: "char \<Rightarrow> rx" where
  "lit a = Class (\<lambda>c. c = a)"

section \<open>Documents\<close>

text \<open>
  An \<^verbatim>\<open>ObjectId\<close> is a value of twelve bytes.

  A document of the object mapper carries, beside its fields, the flag
  \<^verbatim>\<open>isNew\<close> and the paths flagged as modified, which
  \<^verbatim>\<open>isModified(path)\<close> reads. Both hooks of the source read them through
  \<^verbatim>\<open>this\<close>.
\<close>

type_synonym object_id = "96 word"

record 'a document =
  doc :: 'a
  isNew :: bool
  modifiedPaths :: "string list"

definition isModified :: "'a document \<Rightarrow> string \<Rightarrow> bool" where
  "isModified d path = (path \<in> set (modifiedPaths d))"

text \<open>
  What a hook throws, and what the schema validation that runs before it reports
  (the paths that failed their validators), and the duplicate key error of a unique index.
\<close>

datatype error =
    DateFormat
  | InvalidDate
  | TimeEmpty
  | FieldEmpty string
  | EventMissing object_id
  | ValidationError "string list"
  | DuplicateKey string

section \<open>The Event model\<close>

text \<open>
  \<^verbatim>\<open>IEvent\<close>. The slug has no \<^verbatim>\<open>required\<close> option and no default:
  a document that was never saved may have none. The field \<^verbatim>\<open>image\<close> is
  \<open>image_url\<close> here (\<open>image\<close> is a constant of HOL); its path keeps the name
  \<^verbatim>\<open>image\<close>. The time stamps are written by the object mapper and read by no
  code of the repository; they are left out.
\<close>

record event =
  title :: string
  slug :: "string option"
  description :: string
  overview :: string
  image_url :: string
  venue :: string
  location :: string
  date :: string
  time :: string
  mode :: string
  audience :: string
  agenda :: "string list"
  organizer :: string
  tags :: "string list"

text \<open>\<^verbatim>\<open>this[field]\<close> for a field name; \<open>None\<close> where the value is not a string.\<close>

definition getField :: "event \<Rightarrow> string \<Rightarrow> string option" where
  "getField e f =
     (if f = ''title'' then Some (title e)
      else if f = ''slug'' then slug e
      else if f = ''description'' then Some (description e)
      else if f = ''overview'' then Some (overview e)
      else if f = ''image'' then Some (image_url e)
      else if f = ''venue'' then Some (venue e)
      else if f = ''location'' then Some (location e)
      else if f = ''date'' then Some (date e)
      else if f = ''time'' then Some (time e)
      else if f = ''mode'' then Some (mode e)
      else if f = ''audience'' then Some (audience e)
      else if f = ''organizer'' then Some (organizer e)
      else None)"

text \<open>\<^verbatim>\<open>const dateRegex = /^\d{4}-\d{2}-\d{2}$/\<close>\<close>

definition dateRegex :: rx where
  "dateRegex =
     Then (Class isDigit) (Then (Class isDigit) (Then (Class isDigit) (Then (Class isDigit)
     (Then (lit CHR ''-'')
     (Then (Class isDigit) (Then (Class isDigit)
     (Then (lit CHR ''-'')
     (Then (Class isDigit) (Class isDigit)))))))))"

text \<open>
  The slug path has the options \<^verbatim>\<open>lowercase: true, trim: true\<close>: an assignment
  to \<^verbatim>\<open>this.slug\<close> stores the value trimmed and in lower case.
\<close>

definition set_slug :: "string \<Rightarrow> string" where
  "set_slug v = toLowerCase (trim v)"

definition requiredFields :: "string list" where
  "requiredFields =
     [''title'', ''description'', ''overview'', ''image'', ''venue'', ''location'', ''organizer'']"

text \<open>
  The loop over \<^verbatim>\<open>requiredFields\<close>: the first field that is flagged modified, or
  that is a blank string on a new document, is thrown as
  \<^verbatim>\<open>`${field} cannot be empty`\<close>.
\<close>

fun check_required :: "event document \<Rightarrow> string list \<Rightarrow> error option" where
  "check_required d [] = None"
| "check_required d (f # fs) =
     (if isModified d f \<or>
         (isNew d \<and> (case getField (doc d) f of Some v \<Rightarrow> trim v = [] | None \<Rightarrow> False))
      then Some (FieldEmpty f)
      else check_required d fs)"

text \<open>
  \<^verbatim>\<open>eventSchema.pre("save", ...)\<close>. Two things it calls are not code of the
  repository and are parameters: \<open>slugify\<close>, the function of the package of that name
  as called with \<^verbatim>\<open>{lower: true, strict: true, trim: true}\<close>, and \<open>dateParses\<close>,
  which says that \<^verbatim>\<open>new Date(s).getTime()\<close> is a number. The result is the
  thrown error or the document as the hook leaves it. \<open>derive_slug\<close> is the first
  statement of the hook, the assignment to \<^verbatim>\<open>this.slug\<close>: it stores the value
  and, as every assignment to a path does, flags the path \<^verbatim>\<open>slug\<close> as modified
  when the document is new or the value differs from the one it had.
\<close>

definition derive_slug :: "(string \<Rightarrow> string) \<Rightarrow> event document \<Rightarrow> event document" where
  "derive_slug slugify d =
     (if isModified d ''title'' \<or> isNew d
      then d\<lparr>doc := (doc d)\<lparr>slug := Some (set_slug (slugify (title (doc d))))\<rparr>,
             modifiedPaths :=
               (if isNew d \<or> slug (doc d) \<noteq> Some (set_slug (slugify (title (doc d))))
                then List.insert ''slug'' (modifiedPaths d)
                else modifiedPaths d)\<rparr>
      else d)"

definition event_pre_save ::
  "(string \<Rightarrow> string) \<Rightarrow> (string \<Rightarrow> bool) \<Rightarrow> event document \<Rightarrow> error + event document" where
  "event_pre_save slugify dateParses d0 =
     (let d = derive_slug slugify d0
      in if (isModified d ''date'' \<or> isNew d) \<and> \<not> rx_test dateRegex (date (doc d))
           then Inl DateFormat
         else if (isModified d ''date'' \<or> isNew d) \<and> \<not> dateParses (date (doc d))
           then Inl InvalidDate
         else if (isModified d ''time'' \<or> isNew d) \<and>
                 (time (doc d) = [] \<or> trim (time (doc d)) = [])
           then Inl TimeEmpty
         else (case check_required d requiredFields of
                 Some e \<Rightarrow> Inl e
               | None \<Rightarrow> Inr d))"

text \<open>
  The options of the schema paths. A path with \<^verbatim>\<open>trim: true\<close> stores its value
  trimmed; the validators run on the stored value: \<^verbatim>\<open>required\<close> refuses the
  empty string, \<^verbatim>\<open>minlength\<close> compares the length, \<^verbatim>\<open>enum\<close> the
  membership. The two array paths always hold an array (their default is the empty
  one), which \<^verbatim>\<open>required\<close> accepts. \<open>cast_event\<close> applies the setters
  and \<open>event_validate\<close> lists the paths that fail, in the order of the schema.
\<close>

definition cast_event :: "event \<Rightarrow> event" where
  "cast_event e =
     e\<lparr>title := trim (title e),
       slug := map_option set_slug (slug e),
       description := trim (description e),
       overview := trim (overview e),
       image_url := trim (image_url e),
       venue := trim (venue e),
       location := trim (location e),
       time := trim (time e),
       audience := trim (audience e),
       organizer := trim (organizer e)\<rparr>"

definition failing :: "string \<Rightarrow> bool \<Rightarrow> string list" where
  "failing path bad = (if bad then [path] else [])"

definition event_validate :: "event \<Rightarrow> string list" where
  "event_validate e =
     failing ''title'' (title e = [] \<or> length (title e) < 3) @
     failing ''description'' (description e = [] \<or> length (description e) < 10) @
     failing ''overview'' (overview e = [] \<or> length (overview e) < 10) @
     failing ''image'' (image_url e = []) @
     failing ''venue'' (venue e = []) @
     failing ''location'' (location e = []) @
     failing ''date'' (date e = []) @
     failing ''time'' (time e = []) @
     failing ''mode'' (mode e \<notin> set [''online'', ''offline'', ''hybrid'']) @
     failing ''audience'' (audience e = []) @
     failing ''organizer'' (organizer e = [])"

text \<open>
  \<^verbatim>\<open>new Event(draft)\<close>: the document is new, its values went through the setters,
  and every path the draft sets is flagged modified (the object mapper flags each path
  set on a new document).
\<close>

definition new_event :: "event \<Rightarrow> event document" where
  "new_event draft =
     \<lparr>doc = cast_event draft, isNew = True,
      modifiedPaths =
        [''title''] @ (case slug draft of Some _ \<Rightarrow> [''slug''] | None \<Rightarrow> []) @
        [''description'', ''overview'', ''image'', ''venue'', ''location'', ''date'', ''time'',
         ''mode'', ''audience'', ''agenda'', ''organizer'', ''tags'']\<rparr>"

section \<open>The Booking model\<close>

record booking =
  eventId :: object_id
  email :: string

text \<open>\<^verbatim>\<open>/^[^\s@]+@[^\s@]+\.[^\s@]+$/\<close>\<close>

definition notSpaceAt :: "char \<Rightarrow> bool" where
  "notSpaceAt c = (\<not> isSpace c \<and> c \<noteq> CHR ''@'')"

definition emailRegex :: rx where
  "emailRegex =
     Then (one_or_more (Class notSpaceAt))
     (Then (lit CHR ''@'')
     (Then (one_or_more (Class notSpaceAt))
     (Then (lit CHR ''.'')
     (one_or_more (Class notSpaceAt)))))"

text \<open>
  The email path has \<^verbatim>\<open>trim: true, lowercase: true\<close>, \<^verbatim>\<open>required\<close> and
  \<^verbatim>\<open>match\<close>.
\<close>

definition cast_booking :: "booking \<Rightarrow> booking" where
  "cast_booking b = b\<lparr>email := trim (toLowerCase (email b))\<rparr>"

definition booking_validate :: "booking \<Rightarrow> string list" where
  "booking_validate b = failing ''email'' (email b = [] \<or> \<not> rx_test emailRegex (email b))"

definition new_booking :: "booking \<Rightarrow> booking document" where
  "new_booking draft =
     \<lparr>doc = cast_booking draft, isNew = True, modifiedPaths = [''eventId'', ''email'']\<rparr>"

text \<open>
  The collections. \<^verbatim>\<open>Event.findById(id)\<close> is the lookup of the identity in the
  Event collection.
\<close>

record database =
  events :: "(object_id \<times> event) list"
  bookings :: "(object_id \<times> booking) list"

definition findById :: "(object_id \<times> 'a) list \<Rightarrow> object_id \<Rightarrow> 'a option" where
  "findById coll i = map_of coll i"

text \<open>\<^verbatim>\<open>bookingSchema.pre("save", ...)\<close>\<close>

definition booking_pre_save ::
  "(object_id \<times> event) list \<Rightarrow> booking document \<Rightarrow> error + booking document" where
  "booking_pre_save evs d =
     (if isModified d ''eventId'' \<or> isNew d
      then (case findById evs (eventId (doc d)) of
              None \<Rightarrow> Inl (EventMissing (eventId (doc d)))
            | Some _ \<Rightarrow> Inr d)
      else Inr d)"

section \<open>Saving a new document\<close>

text \<open>
  \<^verbatim>\<open>Model.create(draft)\<close> builds the document and saves it: the schema validation
  runs first, then the hook registered with \<^verbatim>\<open>pre("save")\<close>, then the write. A
  failure at any step leaves the collections as they were: the result is the error
  alone. \<open>oid\<close> is the identity generated for the new document. The Event collection
  has a unique index on the slug.
\<close>

definition event_insert ::
  "(string \<Rightarrow> string) \<Rightarrow> (string \<Rightarrow> bool) \<Rightarrow> database \<Rightarrow> object_id \<Rightarrow> event
     \<Rightarrow> error + database" where
  "event_insert slugify dateParses db oid draft =
     (let d = new_event draft
      in case event_validate (doc d) of
           p # ps \<Rightarrow> Inl (ValidationError (p # ps))
         | [] \<Rightarrow>
            (case event_pre_save slugify dateParses d of
               Inl e \<Rightarrow> Inl e
             | Inr d' \<Rightarrow>
                 if list_ex (\<lambda>(i, e). slug e = slug (doc d')) (events db)
                 then Inl (DuplicateKey ''slug'')
                 else Inr (db\<lparr>events := events db @ [(oid, doc d')]\<rparr>)))"

definition booking_insert :: "database \<Rightarrow> object_id \<Rightarrow> booking \<Rightarrow> error + database" where
  "booking_insert db oid draft =
     (let d = new_booking draft
      in case booking_validate (doc d) of
           p # ps \<Rightarrow> Inl (ValidationError (p # ps))
         | [] \<Rightarrow>
            (case booking_pre_save (events db) d of
               Inl e \<Rightarrow> Inl e
             | Inr d' \<Rightarrow> Inr (db\<lparr>bookings := bookings db @ [(oid, doc d')]\<rparr>)))"

section \<open>The connection cache\<close>

text \<open>
  \<^verbatim>\<open>src/lib/mongodb.ts\<close>. \<^verbatim>\<open>cached\<close> has two slots. A promise is named by
  a number; \<open>attempts\<close> counts the calls of \<^verbatim>\<open>mongoose.connect\<close>, and the
  promise of the \<open>n\<close>th call (with its \<^verbatim>\<open>then\<close> and \<^verbatim>\<open>catch\<close>) has
  the number \<open>n\<close>. \<open>settled\<close> records how each promise settled; a promise with no
  entry is pending.
\<close>

datatype 'h settlement = Fulfilled 'h | Rejected string

record 'h CachedConnection =
  promise :: "nat option"
  conn :: "'h option"

record 'h runtime =
  cached :: "'h CachedConnection"
  attempts :: nat
  settled :: "nat \<Rightarrow> 'h settlement option"

text \<open>
  A call of the asynchronous \<^verbatim>\<open>connectToDatabase\<close> runs without interruption up
  to its \<^verbatim>\<open>await\<close>, and again from there once the awaited promise has
  settled. \<open>connect_begin\<close> is the first part: it returns the cached connection, or
  starts an attempt when none is in flight, and then waits for the promise in the slot.
\<close>

datatype 'h progress = Return 'h | Await nat

definition connect_begin :: "'h runtime \<Rightarrow> 'h progress \<times> 'h runtime" where
  "connect_begin w =
     (case conn (cached w) of
        Some h \<Rightarrow> (Return h, w)
      | None \<Rightarrow>
         (case promise (cached w) of
            None \<Rightarrow>
              (Await (attempts w),
               w\<lparr>cached := (cached w)\<lparr>promise := Some (attempts w)\<rparr>,
                 attempts := attempts w + 1\<rparr>)
          | Some p \<Rightarrow> (Await p, w)))"

text \<open>
  The attempt \<open>p\<close> settles. On success the \<^verbatim>\<open>then\<close> handler passes the
  instance on; on failure the \<^verbatim>\<open>catch\<close> handler clears the promise slot and
  throws \<^verbatim>\<open>`Database connection error: ${error.message}`\<close>.
\<close>

definition attempt_settles :: "nat \<Rightarrow> string + 'h \<Rightarrow> 'h runtime \<Rightarrow> 'h runtime" where
  "attempt_settles p r w =
     (case r of
        Inr h \<Rightarrow> w\<lparr>settled := (settled w)(p \<mapsto> Fulfilled h)\<rparr>
      | Inl msg \<Rightarrow>
          w\<lparr>cached := (cached w)\<lparr>promise := None\<rparr>,
            settled := (settled w)(p \<mapsto> Rejected (''Database connection error: '' @ msg))\<rparr>)"

text \<open>
  The second part of a call that waits for \<open>p\<close>: the \<^verbatim>\<open>try\<close> block stores the
  instance in the connection slot and returns it; the \<^verbatim>\<open>catch\<close> block clears the
  promise slot and throws the error again. While \<open>p\<close> is pending the call does
  not continue (\<open>None\<close>).
\<close>

definition connect_resume ::
  "nat \<Rightarrow> 'h runtime \<Rightarrow> ((string + 'h) \<times> 'h runtime) option" where
  "connect_resume p w =
     (case settled w p of
        None \<Rightarrow> None
      | Some (Fulfilled h) \<Rightarrow> Some (Inr h, w\<lparr>cached := (cached w)\<lparr>conn := Some h\<rparr>\<rparr>)
      | Some (Rejected e) \<Rightarrow> Some (Inl e, w\<lparr>cached := (cached w)\<lparr>promise := None\<rparr>\<rparr>))"

section \<open>What the repository calls but does not hold\<close>

text \<open>
  Modelled from the spec: the slug function (the package \<^verbatim>\<open>slugify\<close>, called with
  lower, strict and trim) is not in \<^verbatim>\<open>src/\<close>. The spec derives the slug from
  the title by: lowercase, strip/transliterate to URL-safe characters, collapse
  whitespace/punctuation to separators, trim leading/trailing separators. Here the
  URL-safe characters are the ASCII letters and digits and the separator
  \<^verbatim>\<open>-\<close>; a character that is neither a letter, a digit, white space nor ASCII
  punctuation is stripped; a run of white space and punctuation becomes one separator.
\<close>

definition isAlnum :: "char \<Rightarrow> bool" where
  "isAlnum c = (isDigit c \<or> isUpper c \<or> isLower c)"

definition isPunct :: "char \<Rightarrow> bool" where
  "isPunct c = (let n = (of_char c :: nat) in 33 \<le> n \<and> n \<le> 126 \<and> \<not> isAlnum c)"

definition isUrlSafe :: "char \<Rightarrow> bool" where
  "isUrlSafe c = (isLower c \<or> isDigit c \<or> c = CHR ''-'')"

fun collapse :: "string \<Rightarrow> string" where
  "collapse [] = []"
| "collapse [c] = [if isAlnum c then c else CHR ''-'']"
| "collapse (c # c' # cs) =
     (if isAlnum c then c # collapse (c' # cs)
      else if isAlnum c' then CHR ''-'' # collapse (c' # cs)
      else collapse (c' # cs))"

definition trimSeparators :: "string \<Rightarrow> string" where
  "trimSeparators s =
     rev (dropWhile (\<lambda>c. c = CHR ''-'') (rev (dropWhile (\<lambda>c. c = CHR ''-'') s)))"

definition slugify_spec :: "string \<Rightarrow> string" where
  "slugify_spec s =
     trimSeparators
       (collapse (filter (\<lambda>c. isAlnum c \<or> isSpace c \<or> isPunct c) (toLowerCase s)))"

text \<open>
  The \<^verbatim>\<open>Date\<close> constructor belongs to the runtime (Node.js), not to
  \<^verbatim>\<open>src/\<close>. For a string of the pattern of \<open>dateRegex\<close>,
  \<^verbatim>\<open>new Date(s).getTime()\<close> is a number exactly when the month is from 01 to 12
  and the day from 01 to 31. The runtime consults no table of month lengths there: a day
  past the end of its month is carried into the next month, so that
  \<^verbatim>\<open>2024-02-30\<close> is read as the first of March. The hook reaches the constructor
  only with a string of the pattern; on every other string \<open>nodeDateParses\<close> is
  \<open>False\<close>.
\<close>

definition digits_value :: "string \<Rightarrow> nat" where
  "digits_value s = foldl (\<lambda>a c. 10 * a + (of_char c - 48)) 0 s"

definition nodeDateParses :: "string \<Rightarrow> bool" where
  "nodeDateParses s =
     (let m = digits_value (take 2 (drop 5 s));
          d = digits_value (take 2 (drop 8 s))
      in rx_test dateRegex s \<and> 1 \<le> m \<and> m \<le> 12 \<and> 1 \<le> d \<and> d \<le> 31)"

section \<open>The order of the checks, as a list\<close>

text \<open>
  The checks of the Event hook, each on its own, and their list in the order date,
  time, then the seven required fields from title to organizer. \<open>first_failure\<close>
  reports the first check of a list that fails and none of the later ones.
\<close>

definition date_format_check :: "event document \<Rightarrow> error option" where
  "date_format_check d =
     (if (isModified d ''date'' \<or> isNew d) \<and> \<not> rx_test dateRegex (date (doc d))
      then Some DateFormat else None)"

definition date_value_check :: "(string \<Rightarrow> bool) \<Rightarrow> event document \<Rightarrow> error option" where
  "date_value_check dateParses d =
     (if (isModified d ''date'' \<or> isNew d) \<and> \<not> dateParses (date (doc d))
      then Some InvalidDate else None)"

definition time_check :: "event document \<Rightarrow> error option" where
  "time_check d =
     (if (isModified d ''time'' \<or> isNew d) \<and> trim (time (doc d)) = []
      then Some TimeEmpty else None)"

definition field_check :: "event document \<Rightarrow> string \<Rightarrow> error option" where
  "field_check d f =
     (if isModified d f \<or>
         (isNew d \<and> (case getField (doc d) f of Some v \<Rightarrow> trim v = [] | None \<Rightarrow> False))
      then Some (FieldEmpty f) else None)"

definition checks_in_order :: "(string \<Rightarrow> bool) \<Rightarrow> event document \<Rightarrow> error option list" where
  "checks_in_order dateParses d =
     [date_format_check d, date_value_check dateParses d, time_check d,
      field_check d ''title'', field_check d ''description'', field_check d ''overview'',
      field_check d ''image'', field_check d ''venue'', field_check d ''location'',
      field_check d ''organizer'']"

fun first_failure :: "error option list \<Rightarrow> error option" where
  "first_failure [] = None"
| "first_failure (None # cs) = first_failure cs"
| "first_failure (Some e # cs) = Some e"

section \<open>Sample records\<close>

text \<open>
  The draft of the end-to-end example of the spec and variations of it, a stored event
  as a later save finds it, bookings, small databases, and the cache before and during
  the first call.
\<close>

definition talk :: event where
  "talk =
     \<lparr>title = ''My Talk!!'', slug = None, description = ''A talk about things'',
      overview = ''An overview of it'', image_url = ''/images/talk.png'', venue = ''Hall 1'',
      location = ''Berlin'', date = ''2026-05-01'', time = ''10:00'', mode = ''online'',
      audience = ''Developers'', agenda = [''Intro''], organizer = ''ACME'',
      tags = [''web'']\<rparr>"

definition talk_again :: event where
  "talk_again = talk\<lparr>venue := ''Hall 2'', date := ''2026-06-12'', mode := ''hybrid''\<rparr>"

definition stored_talk :: event where
  "stored_talk = talk\<lparr>slug := Some ''my-talk''\<rparr>"

definition resaved_talk :: "event document" where
  "resaved_talk =
     \<lparr>doc = stored_talk\<lparr>mode := ''hybrid''\<rparr>, isNew = False, modifiedPaths = [''mode'']\<rparr>"

definition no_records :: database where
  "no_records = \<lparr>events = [], bookings = []\<rparr>"

definition one_event :: database where
  "one_event = \<lparr>events = [(7, stored_talk)], bookings = []\<rparr>"

definition fresh_cache :: "nat runtime" where
  "fresh_cache =
     \<lparr>cached = \<lparr>promise = None, conn = None\<rparr>, attempts = 0, settled = (\<lambda>p. None)\<rparr>"

definition talk_month13 :: event where
  "talk_month13 = talk\<lparr>date := ''2024-13-01''\<rparr>"

definition rolled_talk :: "event document" where
  "rolled_talk =
     \<lparr>doc = stored_talk\<lparr>date := ''2024-02-30''\<rparr>, isNew = False, modifiedPaths = [''date'']\<rparr>"

definition moved_talk :: "event document" where
  "moved_talk =
     \<lparr>doc = stored_talk\<lparr>date := ''2026-10-25''\<rparr>, isNew = False, modifiedPaths = [''date'']\<rparr>"

definition redated_talk :: "event document" where
  "redated_talk =
     \<lparr>doc = stored_talk\<lparr>date := ''25/10/2026''\<rparr>, isNew = False, modifiedPaths = [''date'']\<rparr>"

definition talk_no_venue :: event where
  "talk_no_venue = talk\<lparr>venue := ''   ''\<rparr>"

definition talk_bangs :: event where
  "talk_bangs = talk\<lparr>title := ''!!!''\<rparr>"

definition orphan_booking :: booking where
  "orphan_booking = \<lparr>eventId = 8, email = ''A@B.com''\<rparr>"

definition talk_booking :: booking where
  "talk_booking = \<lparr>eventId = 7, email = ''A@B.com''\<rparr>"

definition saved_booking :: "booking document" where
  "saved_booking =
     \<lparr>doc = \<lparr>eventId = 8, email = ''c@d.org''\<rparr>, isNew = False, modifiedPaths = [''email'']\<rparr>"

definition connecting :: "nat runtime" where
  "connecting = snd (connect_begin fresh_cache)"

section \<open>The setters\<close>

text \<open>
  Trimming and lower-casing commute, so the order in which a path applies its two
  setters does not matter.
\<close>

lemma isSpace_lowerChar: "isSpace (lowerChar c) = isSpace c"
  by (auto simp: isSpace_def lowerChar_def Let_def)

lemma dropWhile_isSpace_lower:
  "dropWhile isSpace (map lowerChar s) = map lowerChar (dropWhile isSpace s)"
  by (induction s) (simp_all add: isSpace_lowerChar)

lemma trim_toLowerCase: "trim (toLowerCase s) = toLowerCase (trim s)"
  by (simp add: trim_def toLowerCase_def rev_map dropWhile_isSpace_lower)

section \<open>The Event hook: slug\<close>

lemma derive_slug_unchanged:
  "\<not> isNew d \<Longrightarrow> \<not> isModified d ''title'' \<Longrightarrow> derive_slug sl d = d"
  by (simp add: derive_slug_def)

lemma derive_slug_flags [simp]:
  "isNew (derive_slug sl d) = isNew d"
  "p \<noteq> ''slug'' \<Longrightarrow> isModified (derive_slug sl d) p = isModified d p"
  by (simp_all add: derive_slug_def isModified_def)

lemma event_pre_save_Inr:
  "event_pre_save sl dp d = Inr d' \<Longrightarrow> d' = derive_slug sl d"
  by (auto simp: event_pre_save_def Let_def split: if_splits option.splits)

text \<open>
  C8: for an event that is not new and whose title is not flagged modified, the slug
  step of the hook changes nothing, and a save that the hook lets through keeps the
  slug the document had.
\<close>

theorem resave_keeps_slug:
  "\<not> isNew d \<Longrightarrow> \<not> isModified d ''title'' \<Longrightarrow>
     derive_slug sl d = d \<and>
     (\<forall>d'. event_pre_save sl dp d = Inr d' \<longrightarrow> slug (doc d') = slug (doc d))"
  using event_pre_save_Inr [of sl dp d] by (auto simp: derive_slug_unchanged)

theorem resave_keeps_slug_witness:
  "\<not> isNew resaved_talk \<and> \<not> isModified resaved_talk ''title'' \<and>
   event_pre_save slugify_spec nodeDateParses resaved_talk = Inr resaved_talk \<and>
   slug (doc resaved_talk) = Some ''my-talk''"
  using resave_keeps_slug [of resaved_talk slugify_spec nodeDateParses]
  by (simp add: isModified_def event_pre_save_def Let_def derive_slug_def requiredFields_def
      resaved_talk_def stored_talk_def talk_def)

text \<open>
  C9: on a new event the slug that the hook assigns is the slug function applied to the
  title, passed through the setter of the slug path, and nothing else: no suffix, and
  nothing read from the collection (the hook has no access to it). Two new events with
  the same title get the same slug.
\<close>

theorem slug_function_of_title:
  "isNew d1 \<Longrightarrow> isNew d2 \<Longrightarrow> title (doc d1) = title (doc d2) \<Longrightarrow>
     slug (doc (derive_slug sl d1)) = Some (set_slug (sl (title (doc d1)))) \<and>
     slug (doc (derive_slug sl d2)) = slug (doc (derive_slug sl d1))"
  by (simp add: derive_slug_def)

theorem slug_function_of_title_witness:
  "isNew (new_event talk) \<and> isNew (new_event talk_again) \<and>
   title (doc (new_event talk)) = title (doc (new_event talk_again)) \<and>
   doc (new_event talk) \<noteq> doc (new_event talk_again) \<and>
   slug (doc (derive_slug slugify_spec (new_event talk))) = Some ''my-talk'' \<and>
   slug (doc (derive_slug slugify_spec (new_event talk_again))) = Some ''my-talk''"
proof -
  have s: "set_slug (slugify_spec (title (doc (new_event talk)))) = ''my-talk''"
    by code_simp
  have n: "isNew (new_event talk)" "isNew (new_event talk_again)"
    by (simp_all add: new_event_def)
  have t: "title (doc (new_event talk)) = title (doc (new_event talk_again))"
    by (simp add: new_event_def cast_event_def talk_again_def)
  have ne: "doc (new_event talk) \<noteq> doc (new_event talk_again)"
    by (simp add: new_event_def cast_event_def talk_again_def talk_def)
  from slug_function_of_title [OF n t, of slugify_spec] s n t ne show ?thesis
    by simp
qed

subsection \<open>The slug function of the spec\<close>

lemma lowerChar_not_upper: "\<not> isUpper (lowerChar c)"
  by (auto simp: isUpper_def lowerChar_def Let_def)

lemma lowerChar_alnum: "isAlnum c \<Longrightarrow> isAlnum (lowerChar c)"
  by (auto simp: isAlnum_def isUpper_def isLower_def isDigit_def lowerChar_def Let_def)

lemma alnum_lower_url_safe: "isAlnum c \<Longrightarrow> \<not> isUpper c \<Longrightarrow> isUrlSafe c"
  by (auto simp: isAlnum_def isUrlSafe_def)

lemma url_safe_fixed: "isUrlSafe c \<Longrightarrow> lowerChar c = c"
  by (auto simp: isUrlSafe_def isLower_def isDigit_def lowerChar_def Let_def)

lemma url_safe_not_space: "isUrlSafe c \<Longrightarrow> \<not> isSpace c"
  by (auto simp: isUrlSafe_def isLower_def isDigit_def isSpace_def Let_def)

lemma dash_not_alnum: "\<not> isAlnum CHR ''-''"
  by (simp add: isAlnum_def isUpper_def isLower_def isDigit_def)

lemma collapse_chars:
  "c \<in> set (collapse s) \<Longrightarrow> (c \<in> set s \<and> isAlnum c) \<or> c = CHR ''-''"
  by (induction s rule: collapse.induct) (auto split: if_splits)

lemma collapse_keeps_alnum: "filter isAlnum (collapse s) = filter isAlnum s"
  by (induction s rule: collapse.induct) (auto simp: dash_not_alnum)

lemma filter_dropWhile_other:
  "(\<And>x. Q x \<Longrightarrow> \<not> P x) \<Longrightarrow> filter P (dropWhile Q s) = filter P s"
  by (induction s) auto

lemma trimSeparators_keeps_alnum: "filter isAlnum (trimSeparators s) = filter isAlnum s"
proof -
  have d: "filter isAlnum (dropWhile (\<lambda>c. c = CHR ''-'') t) = filter isAlnum t" for t
    by (rule filter_dropWhile_other) (simp add: dash_not_alnum)
  show ?thesis
    unfolding trimSeparators_def rev_filter [symmetric] d rev_rev_ident ..
qed

lemma trimSeparators_chars: "c \<in> set (trimSeparators s) \<Longrightarrow> c \<in> set s"
  unfolding trimSeparators_def by (auto dest!: set_dropWhileD)

lemma slugify_spec_url_safe: "list_all isUrlSafe (slugify_spec t)"
proof -
  have "isUrlSafe c" if "c \<in> set (slugify_spec t)" for c
  proof -
    from that trimSeparators_chars
    have "c \<in> set (collapse (filter (\<lambda>c. isAlnum c \<or> isSpace c \<or> isPunct c) (toLowerCase t)))"
      unfolding slugify_spec_def by blast
    then consider "c \<in> set (toLowerCase t)" "isAlnum c" | "c = CHR ''-''"
      using collapse_chars by fastforce
    then show ?thesis
    proof cases
      case 1
      then obtain a where "c = lowerChar a" by (auto simp: toLowerCase_def)
      with 1 show ?thesis by (simp add: alnum_lower_url_safe lowerChar_not_upper)
    next
      case 2
      then show ?thesis by (simp add: isUrlSafe_def)
    qed
  qed
  then show ?thesis by (simp add: list_all_iff)
qed

lemma slugify_spec_nonempty:
  assumes "list_ex isAlnum t"
  shows "slugify_spec t \<noteq> []"
proof -
  from assms obtain c where c: "c \<in> set t" "isAlnum c" by (auto simp: list_ex_iff)
  have "filter isAlnum (slugify_spec t) =
      filter isAlnum (filter (\<lambda>c. isAlnum c \<or> isSpace c \<or> isPunct c) (toLowerCase t))"
    by (simp only: slugify_spec_def trimSeparators_keeps_alnum collapse_keeps_alnum)
  also have "\<dots> = filter isAlnum (toLowerCase t)"
    by (simp add: conj_commute) (metis (mono_tags, lifting) filter_cong)
  finally have "filter isAlnum (slugify_spec t) = filter isAlnum (toLowerCase t)" .
  moreover have "lowerChar c \<in> set (filter isAlnum (toLowerCase t))"
    using c by (simp add: toLowerCase_def lowerChar_alnum)
  ultimately have "filter isAlnum (slugify_spec t) \<noteq> []"
    by (simp del: set_filter) (metis empty_iff empty_set)
  then show ?thesis by auto
qed

lemma trim_no_space: "(\<And>c. c \<in> set s \<Longrightarrow> \<not> isSpace c) \<Longrightarrow> trim s = s"
proof -
  assume h: "\<And>c. c \<in> set s \<Longrightarrow> \<not> isSpace c"
  have d: "dropWhile isSpace u = u" if "\<And>c. c \<in> set u \<Longrightarrow> \<not> isSpace c" for u
    using that by (cases u) auto
  have "dropWhile isSpace s = s"
    by (rule d) (rule h)
  moreover have "dropWhile isSpace (rev s) = rev s"
    by (rule d) (simp add: h)
  ultimately show ?thesis
    by (simp add: trim_def)
qed

lemma set_slug_url_safe: "list_all isUrlSafe s \<Longrightarrow> set_slug s = s"
proof -
  assume a: "list_all isUrlSafe s"
  then have "trim s = s"
    by (intro trim_no_space) (auto simp: list_all_iff url_safe_not_space)
  moreover have "toLowerCase s = s"
    using a unfolding toLowerCase_def by (intro map_idI) (auto simp: list_all_iff url_safe_fixed)
  ultimately show ?thesis by (simp add: set_slug_def)
qed

text \<open>
  C7, as stated, fails: the title \<^verbatim>\<open>!!!\<close> is not empty after trimming and
  passes the validators of the title path, and the slug derived from it is empty.
\<close>

theorem empty_slug_counterexample:
  "trim (title talk_bangs) \<noteq> [] \<and> event_validate (cast_event talk_bangs) = [] \<and>
   slug (doc (derive_slug slugify_spec (new_event talk_bangs))) = Some []"
  by code_simp

text \<open>
  C7, amended: whenever the hook derives the slug (the document is new or its title is
  flagged modified), the slug is in lower case and made of the letters a to z, the digits
  and the separator only; it is not empty when the title holds an ASCII letter or digit.
\<close>

theorem derived_slug_url_safe:
  "isNew d \<or> isModified d ''title'' \<Longrightarrow>
     \<exists>s. slug (doc (derive_slug slugify_spec d)) = Some s \<and>
         list_all isUrlSafe s \<and> toLowerCase s = s \<and>
         (list_ex isAlnum (title (doc d)) \<longrightarrow> s \<noteq> [])"
proof -
  assume "isNew d \<or> isModified d ''title''"
  then have s: "slug (doc (derive_slug slugify_spec d)) = Some (slugify_spec (title (doc d)))"
    by (auto simp: derive_slug_def set_slug_url_safe slugify_spec_url_safe)
  have "toLowerCase (slugify_spec (title (doc d))) = slugify_spec (title (doc d))"
    using slugify_spec_url_safe [of "title (doc d)"] unfolding toLowerCase_def
    by (intro map_idI) (auto simp: list_all_iff url_safe_fixed)
  with s show ?thesis
    by (simp add: slugify_spec_url_safe slugify_spec_nonempty)
qed

theorem derived_slug_url_safe_witness:
  "isNew (new_event talk) \<and> list_ex isAlnum (title (doc (new_event talk))) \<and>
   slug (doc (derive_slug slugify_spec (new_event talk))) = Some ''my-talk'' \<and>
   list_all isUrlSafe ''my-talk'' \<and> toLowerCase ''my-talk'' = ''my-talk''"
proof -
  have a: "isNew (new_event talk)" "list_ex isAlnum (title (doc (new_event talk)))"
    "slug (doc (derive_slug slugify_spec (new_event talk))) = Some ''my-talk''"
    by code_simp+
  from derived_slug_url_safe [of "new_event talk"] a show ?thesis
    by auto
qed

section \<open>The Event hook: order of the checks\<close>

lemma check_required_first_failure:
  "check_required d fs = first_failure (map (field_check d) fs)"
  by (induction fs) (simp_all add: field_check_def)

lemma time_blank_iff: "(t = [] \<or> trim t = []) = (trim t = [])"
  by (auto simp: trim_def)

text \<open>
  C10: after the slug step the hook throws the first failure of the list of checks in
  the order date format, date value, time, title, description, overview, image, venue,
  location, organizer, and only that one; when no check fails it returns the document.
\<close>

theorem event_pre_save_first_failure:
  "event_pre_save sl dp d =
     (case first_failure (checks_in_order dp (derive_slug sl d)) of
        Some e \<Rightarrow> Inl e
      | None \<Rightarrow> Inr (derive_slug sl d))"
  unfolding event_pre_save_def Let_def checks_in_order_def check_required_first_failure
    requiredFields_def
  by (simp add: date_format_check_def date_value_check_def time_check_def time_blank_iff)

section \<open>Inserting an event\<close>

lemma new_event_simps [simp]:
  "doc (new_event draft) = cast_event draft"
  "isNew (new_event draft)"
  "isModified (new_event draft) ''title''"
  by (simp_all add: new_event_def isModified_def)

lemma event_pre_save_new_event:
  "\<exists>e. event_pre_save sl dp (new_event draft) = Inl e"
  by (simp add: event_pre_save_def Let_def requiredFields_def)

lemma event_insert_fails: "\<exists>e. event_insert sl dp db oid draft = Inl e"
proof (cases "event_validate (cast_event draft)")
  case Nil
  obtain e where "event_pre_save sl dp (new_event draft) = Inl e"
    using event_pre_save_new_event by blast
  with Nil show ?thesis by (simp add: event_insert_def)
next
  case (Cons p ps)
  then show ?thesis by (simp add: event_insert_def)
qed

text \<open>
  C1: the draft of the example passes the schema validation and its title gives the slug
  \<^verbatim>\<open>my-talk\<close>, but the insert does not succeed: on the new document the title
  is flagged modified, and the loop over the required fields throws
  \<^verbatim>\<open>title cannot be empty\<close>. No insert of an event succeeds. On the same
  document with no path flagged the hook passes, leaves the slug
  \<^verbatim>\<open>my-talk\<close> and flags the slug path: the flag of the title alone stops
  the insert. The booking half
  holds: with an event of that identity in the collection, the booking with the email
  \<^verbatim>\<open>A@B.com\<close> is stored with \<^verbatim>\<open>a@b.com\<close>.
\<close>

theorem end_to_end_insert:
  "event_validate (cast_event talk) = [] \<and>
   slugify_spec (title talk) = ''my-talk'' \<and>
   event_pre_save slugify_spec nodeDateParses (new_event talk) = Inl (FieldEmpty ''title'') \<and>
   event_insert slugify_spec nodeDateParses no_records 7 talk = Inl (FieldEmpty ''title'') \<and>
   (\<forall>sl dp db oid draft. \<exists>e. event_insert sl dp db oid draft = Inl e) \<and>
   event_pre_save slugify_spec nodeDateParses
       \<lparr>doc = cast_event talk, isNew = True, modifiedPaths = []\<rparr> =
     Inr \<lparr>doc = stored_talk, isNew = True, modifiedPaths = [''slug'']\<rparr> \<and>
   booking_insert one_event 9 \<lparr>eventId = 7, email = ''A@B.com''\<rparr> =
     Inr (one_event\<lparr>bookings := [(9, \<lparr>eventId = 7, email = ''a@b.com''\<rparr>)]\<rparr>)"
proof -
  have 1: "event_validate (cast_event talk) = []" by code_simp
  have 2: "slugify_spec (title talk) = ''my-talk''" by code_simp
  have 3: "event_pre_save slugify_spec nodeDateParses (new_event talk) = Inl (FieldEmpty ''title'')"
    by code_simp
  have 4: "event_insert slugify_spec nodeDateParses no_records 7 talk = Inl (FieldEmpty ''title'')"
    by code_simp
  have 5: "booking_insert one_event 9 \<lparr>eventId = 7, email = ''A@B.com''\<rparr> =
     Inr (one_event\<lparr>bookings := [(9, \<lparr>eventId = 7, email = ''a@b.com''\<rparr>)]\<rparr>)"
    by code_simp
  have 6: "event_pre_save slugify_spec nodeDateParses
       \<lparr>doc = cast_event talk, isNew = True, modifiedPaths = []\<rparr> =
     Inr \<lparr>doc = stored_talk, isNew = True, modifiedPaths = [''slug'']\<rparr>"
    by code_simp
  from 1 2 3 4 5 6 event_insert_fails show ?thesis by blast
qed

subsection \<open>Dates\<close>

lemma cast_event_date [simp]: "date (cast_event e) = date e"
  by (simp add: cast_event_def)

lemma derive_slug_date [simp]: "date (doc (derive_slug sl d)) = date (doc d)"
  by (simp add: derive_slug_def)

lemma date_format_thrown:
  "isNew d \<or> isModified d ''date'' \<Longrightarrow> \<not> rx_test dateRegex (date (doc d)) \<Longrightarrow>
     event_pre_save sl dp d = Inl DateFormat"
  by (auto simp: event_pre_save_def Let_def)

lemma date_value_thrown:
  "isNew d \<or> isModified d ''date'' \<Longrightarrow> rx_test dateRegex (date (doc d)) \<Longrightarrow>
     \<not> dp (date (doc d)) \<Longrightarrow> event_pre_save sl dp d = Inl InvalidDate"
  by (auto simp: event_pre_save_def Let_def)

lemma event_insert_valid:
  "event_validate (cast_event draft) = [] \<Longrightarrow>
     event_insert sl dp db oid draft =
       (case event_pre_save sl dp (new_event draft) of
          Inl e \<Rightarrow> Inl e
        | Inr d' \<Rightarrow>
            if list_ex (\<lambda>(i, e). slug e = slug (doc d')) (events db)
            then Inl (DuplicateKey ''slug'')
            else Inr (db\<lparr>events := events db @ [(oid, doc d')]\<rparr>))"
  by (simp add: event_insert_def)

lemma check_required_error:
  "check_required d fs = Some e \<Longrightarrow> \<exists>f. e = FieldEmpty f"
  by (induction fs) (auto split: if_splits)

lemma date_checks_passed:
  assumes "rx_test dateRegex (date (doc d))" and "dp (date (doc d))"
  shows "event_pre_save sl dp d \<noteq> Inl DateFormat \<and> event_pre_save sl dp d \<noteq> Inl InvalidDate"
proof (cases "check_required (derive_slug sl d) requiredFields")
  case None
  with assms show ?thesis by (simp add: event_pre_save_def Let_def)
next
  case (Some e)
  then obtain f where "e = FieldEmpty f" using check_required_error by blast
  with Some assms show ?thesis by (simp add: event_pre_save_def Let_def)
qed

text \<open>
  C5, as stated, fails: \<^verbatim>\<open>2024-02-30\<close> is no calendar date, yet on a stored
  event whose date alone was changed to it the schema validation passes, the hook throws
  nothing and the save goes through, since the runtime reads the string as the first of
  March.
\<close>

theorem day_overflow_counterexample:
  "isModified rolled_talk ''date'' \<and> date (doc rolled_talk) = ''2024-02-30'' \<and>
   event_validate (doc rolled_talk) = [] \<and>
   event_pre_save slugify_spec nodeDateParses rolled_talk = Inr rolled_talk"
  by code_simp

text \<open>
  C5, amended: on a document that is new or whose date is flagged modified, the hook
  throws the format error for a date that does not match the pattern, and the value
  error for a date that matches it and that the parser of the runtime refuses; a date
  that passes both is rejected by neither date check. The insert of a draft whose date
  fails one of the two fails, with one of these two errors when the draft passes the
  schema validation. On the runtime, \<^verbatim>\<open>2024-13-01\<close> matches the pattern and is
  refused, while \<^verbatim>\<open>2024-02-30\<close> and \<^verbatim>\<open>2026-10-25\<close> pass both checks.
\<close>

theorem date_checks_of_hook:
  "(isNew d \<or> isModified d ''date'' \<longrightarrow>
      (\<not> rx_test dateRegex (date (doc d)) \<longrightarrow> event_pre_save sl dp d = Inl DateFormat) \<and>
      (rx_test dateRegex (date (doc d)) \<and> \<not> dp (date (doc d)) \<longrightarrow>
         event_pre_save sl dp d = Inl InvalidDate) \<and>
      (rx_test dateRegex (date (doc d)) \<and> dp (date (doc d)) \<longrightarrow>
         event_pre_save sl dp d \<noteq> Inl DateFormat \<and> event_pre_save sl dp d \<noteq> Inl InvalidDate)) \<and>
   (\<not> rx_test dateRegex (date draft) \<or> \<not> dp (date draft) \<longrightarrow>
      (\<exists>e. event_insert sl dp db oid draft = Inl e \<and>
           (event_validate (cast_event draft) = [] \<longrightarrow> e = DateFormat \<or> e = InvalidDate))) \<and>
   rx_test dateRegex ''2024-13-01'' \<and> \<not> nodeDateParses ''2024-13-01'' \<and>
   rx_test dateRegex ''2024-02-30'' \<and> nodeDateParses ''2024-02-30'' \<and>
   rx_test dateRegex ''2026-10-25'' \<and> nodeDateParses ''2026-10-25''"
proof -
  have ex: "rx_test dateRegex ''2024-13-01''" "\<not> nodeDateParses ''2024-13-01''"
    "rx_test dateRegex ''2024-02-30''" "nodeDateParses ''2024-02-30''"
    "rx_test dateRegex ''2026-10-25''" "nodeDateParses ''2026-10-25''"
    by code_simp+
  have ins: "\<exists>e. event_insert sl dp db oid draft = Inl e \<and>
           (event_validate (cast_event draft) = [] \<longrightarrow> e = DateFormat \<or> e = InvalidDate)"
    if bad: "\<not> rx_test dateRegex (date draft) \<or> \<not> dp (date draft)"
  proof (cases "event_validate (cast_event draft) = []")
    case True
    have "event_pre_save sl dp (new_event draft) = Inl DateFormat \<or>
          event_pre_save sl dp (new_event draft) = Inl InvalidDate"
      using bad date_format_thrown [of "new_event draft" sl dp]
        date_value_thrown [of "new_event draft" dp sl]
      by auto
    with True show ?thesis by (auto simp: event_insert_valid)
  next
    case False
    with event_insert_fails [of sl dp db oid draft] show ?thesis by auto
  qed
  show ?thesis
    using ex ins date_format_thrown [of d sl dp] date_value_thrown [of d dp sl]
      date_checks_passed [of d dp sl]
    by blast
qed

theorem date_checks_of_hook_witness:
  "isNew (new_event talk_month13) \<and>
   rx_test dateRegex (date (doc (new_event talk_month13))) \<and>
   \<not> nodeDateParses (date (doc (new_event talk_month13))) \<and>
   event_pre_save slugify_spec nodeDateParses (new_event talk_month13) = Inl InvalidDate \<and>
   event_validate (cast_event talk_month13) = [] \<and>
   event_insert slugify_spec nodeDateParses no_records 7 talk_month13 = Inl InvalidDate \<and>
   isModified redated_talk ''date'' \<and>
   \<not> rx_test dateRegex (date (doc redated_talk)) \<and>
   event_pre_save slugify_spec nodeDateParses redated_talk = Inl DateFormat \<and>
   isModified moved_talk ''date'' \<and>
   rx_test dateRegex (date (doc moved_talk)) \<and> nodeDateParses (date (doc moved_talk)) \<and>
   event_pre_save slugify_spec nodeDateParses moved_talk = Inr moved_talk"
proof -
  have a: "isNew (new_event talk_month13)"
    "rx_test dateRegex (date (doc (new_event talk_month13)))"
    "\<not> nodeDateParses (date (doc (new_event talk_month13)))"
    "event_validate (cast_event talk_month13) = []"
    "isModified redated_talk ''date''"
    "\<not> rx_test dateRegex (date (doc redated_talk))"
    "\<not> nodeDateParses (date talk_month13)"
    "isModified moved_talk ''date''"
    "rx_test dateRegex (date (doc moved_talk))" "nodeDateParses (date (doc moved_talk))"
    by code_simp+
  have b: "event_insert slugify_spec nodeDateParses no_records 7 talk_month13 = Inl InvalidDate"
    "event_pre_save slugify_spec nodeDateParses moved_talk = Inr moved_talk"
    by code_simp+
  from date_checks_of_hook [of "new_event talk_month13" slugify_spec nodeDateParses talk_month13
      no_records 7]
    date_checks_of_hook [of redated_talk slugify_spec nodeDateParses talk_month13 no_records 7]
    date_checks_of_hook [of moved_talk slugify_spec nodeDateParses talk_month13 no_records 7]
    a b show ?thesis
    by simp
qed

subsection \<open>Required fields\<close>

lemma in_failing [simp]: "f \<in> set (failing p bad) \<longleftrightarrow> bad \<and> f = p"
  by (auto simp: failing_def)

lemma in_event_validate:
  "f \<in> set (event_validate e) \<longleftrightarrow>
     ((title e = [] \<or> length (title e) < 3) \<and> f = ''title'') \<or>
     ((description e = [] \<or> length (description e) < 10) \<and> f = ''description'') \<or>
     ((overview e = [] \<or> length (overview e) < 10) \<and> f = ''overview'') \<or>
     (image_url e = [] \<and> f = ''image'') \<or>
     (venue e = [] \<and> f = ''venue'') \<or>
     (location e = [] \<and> f = ''location'') \<or>
     (date e = [] \<and> f = ''date'') \<or>
     (time e = [] \<and> f = ''time'') \<or>
     (mode e \<notin> set [''online'', ''offline'', ''hybrid''] \<and> f = ''mode'') \<or>
     (audience e = [] \<and> f = ''audience'') \<or>
     (organizer e = [] \<and> f = ''organizer'')"
  unfolding event_validate_def set_append Un_iff in_failing
  by (simp only: disj_assoc)

lemma blank_fails_validation:
  assumes "f \<in> set requiredFields" "getField draft f = Some v" "trim v = []"
  shows "f \<in> set (event_validate (cast_event draft))"
proof -
  from assms(1) have "f = ''title'' \<or> f = ''description'' \<or> f = ''overview'' \<or>
      f = ''image'' \<or> f = ''venue'' \<or> f = ''location'' \<or> f = ''organizer''"
    unfolding requiredFields_def by (simp only: list.set insert_iff empty_iff simp_thms)
  then show ?thesis
  proof (elim disjE)
    assume "f = ''title''" with assms(2,3) show ?thesis
      by (simp add: in_event_validate getField_def cast_event_def)
  next
    assume "f = ''description''" with assms(2,3) show ?thesis
      by (simp add: in_event_validate getField_def cast_event_def)
  next
    assume "f = ''overview''" with assms(2,3) show ?thesis
      by (simp add: in_event_validate getField_def cast_event_def)
  next
    assume "f = ''image''" with assms(2,3) show ?thesis
      by (simp add: in_event_validate getField_def cast_event_def)
  next
    assume "f = ''venue''" with assms(2,3) show ?thesis
      by (simp add: in_event_validate getField_def cast_event_def)
  next
    assume "f = ''location''" with assms(2,3) show ?thesis
      by (simp add: in_event_validate getField_def cast_event_def)
  next
    assume "f = ''organizer''" with assms(2,3) show ?thesis
      by (simp add: in_event_validate getField_def cast_event_def)
  qed
qed


lemma slug_not_required: "''slug'' \<notin> set requiredFields"
  by (simp add: requiredFields_def)

lemma getField_derive_slug:
  "f \<noteq> ''slug'' \<Longrightarrow> getField (doc (derive_slug sl d)) f = getField (doc d) f"
  by (simp add: getField_def derive_slug_def)

lemma check_required_blank:
  "isNew d \<Longrightarrow> f \<in> set fs \<Longrightarrow> getField (doc d) f = Some v \<Longrightarrow> trim v = [] \<Longrightarrow>
     \<exists>e. check_required d fs = Some e"
proof (induction fs)
  case Nil
  then show ?case by simp
next
  case (Cons g fs)
  show ?case
  proof (cases "f = g")
    case True
    with Cons.prems show ?thesis by simp
  next
    case False
    with Cons show ?thesis by simp
  qed
qed

lemma hook_throws_on_blank:
  assumes "isNew d" "f \<in> set requiredFields" "getField (doc d) f = Some v" "trim v = []"
  shows "\<exists>e. event_pre_save sl dp d = Inl e"
proof -
  from assms(2) slug_not_required have "f \<noteq> ''slug''" by blast
  then have "getField (doc (derive_slug sl d)) f = Some v"
    using assms(3) by (simp add: getField_derive_slug)
  with assms(1,2,4) have "\<exists>e. check_required (derive_slug sl d) requiredFields = Some e"
    by (intro check_required_blank [of _ f _ v]) simp_all
  then obtain e where "check_required (derive_slug sl d) requiredFields = Some e" ..
  then show ?thesis
    by (simp add: event_pre_save_def Let_def)
qed

text \<open>
  C6: for each of the seven required fields, the insert of a draft whose value for the
  field is empty or white space fails with a validation error that lists the field, and
  nothing is written; the hook on its own also throws on every new document with such a
  value, whatever paths are flagged.
\<close>

theorem blank_required_field_rejected:
  "f \<in> set requiredFields \<Longrightarrow> getField draft f = Some v \<Longrightarrow> trim v = [] \<Longrightarrow>
     (\<exists>ps. event_insert sl dp db oid draft = Inl (ValidationError ps) \<and> f \<in> set ps) \<and>
     (\<forall>m. \<exists>e. event_pre_save sl dp \<lparr>doc = draft, isNew = True, modifiedPaths = m\<rparr> = Inl e)"
proof -
  assume f: "f \<in> set requiredFields" and v: "getField draft f = Some v" and b: "trim v = []"
  have "f \<in> set (event_validate (cast_event draft))"
    using f v b by (rule blank_fails_validation)
  then have "\<exists>ps. event_insert sl dp db oid draft = Inl (ValidationError ps) \<and> f \<in> set ps"
    by (cases "event_validate (cast_event draft)") (auto simp: event_insert_def new_event_def)
  moreover have "\<exists>e. event_pre_save sl dp \<lparr>doc = draft, isNew = True, modifiedPaths = m\<rparr> = Inl e"
    for m
    using f v b by (intro hook_throws_on_blank [of _ f v]) simp_all
  ultimately show ?thesis by blast
qed

theorem blank_required_field_rejected_witness:
  "''venue'' \<in> set requiredFields \<and> getField talk_no_venue ''venue'' = Some ''   '' \<and>
   trim ''   '' = [] \<and>
   event_insert slugify_spec nodeDateParses no_records 7 talk_no_venue =
     Inl (ValidationError [''venue'']) \<and>
   (\<exists>e. event_pre_save slugify_spec nodeDateParses
          \<lparr>doc = talk_no_venue, isNew = True, modifiedPaths = []\<rparr> = Inl e)"
proof -
  have a: "''venue'' \<in> set requiredFields" "getField talk_no_venue ''venue'' = Some ''   ''"
    "trim ''   '' = []"
    by code_simp+
  have b: "event_insert slugify_spec nodeDateParses no_records 7 talk_no_venue =
     Inl (ValidationError [''venue''])"
    by code_simp
  from blank_required_field_rejected [OF a, of slugify_spec nodeDateParses no_records 7] b a
  show ?thesis by blast
qed

section \<open>Inserting a booking\<close>

text \<open>
  C4, as stated, fails: a booking with no matching event and an email that the
  \<^verbatim>\<open>match\<close> validator refuses is rejected by the schema validation, which runs
  before the hook; the error names the email and not the missing event.
\<close>

theorem booking_invalid_email_counterexample:
  "findById (events one_event) 8 = None \<and>
   booking_insert one_event 9 \<lparr>eventId = 8, email = ''not-an-email''\<rparr> =
     Inl (ValidationError [''email''])"
  by code_simp

lemma booking_validate_cases:
  "booking_validate b = [] \<or> booking_validate b = [''email'']"
  by (simp add: booking_validate_def failing_def)

text \<open>
  C4, amended: the insert of a booking with no matching event fails and writes nothing;
  when the email passes the validators the error is the one of the hook and carries the
  missing identity; a booking with a matching event and such an email is stored. A
  booking whose email fails the validators is rejected on the email. The hook looks the
  event up on every new document and whenever \<^verbatim>\<open>eventId\<close> is flagged modified,
  and not otherwise.
\<close>

theorem booking_requires_event:
  "(findById (events db) (eventId b) = None \<longrightarrow>
      (\<exists>e. booking_insert db oid b = Inl e) \<and>
      (booking_validate (cast_booking b) = [] \<longrightarrow>
         booking_insert db oid b = Inl (EventMissing (eventId b)))) \<and>
   (findById (events db) (eventId b) \<noteq> None \<and> booking_validate (cast_booking b) = [] \<longrightarrow>
      booking_insert db oid b = Inr (db\<lparr>bookings := bookings db @ [(oid, cast_booking b)]\<rparr>)) \<and>
   (booking_validate (cast_booking b) \<noteq> [] \<longrightarrow>
      booking_insert db oid b = Inl (ValidationError [''email''])) \<and>
   (isNew d \<or> isModified d ''eventId'' \<longrightarrow>
      booking_pre_save evs d =
        (case findById evs (eventId (doc d)) of
           None \<Rightarrow> Inl (EventMissing (eventId (doc d)))
         | Some e \<Rightarrow> Inr d)) \<and>
   (\<not> isNew d \<and> \<not> isModified d ''eventId'' \<longrightarrow> booking_pre_save evs d = Inr d)"
proof -
  have e: "eventId (cast_booking b) = eventId b" by (simp add: cast_booking_def)
  have n: "isNew (new_booking b)" "doc (new_booking b) = cast_booking b"
    by (simp_all add: new_booking_def)
  have ok: "booking_validate (cast_booking b) = [] \<Longrightarrow>
      booking_insert db oid b =
        (case findById (events db) (eventId b) of
           None \<Rightarrow> Inl (EventMissing (eventId b))
         | Some e \<Rightarrow> Inr (db\<lparr>bookings := bookings db @ [(oid, cast_booking b)]\<rparr>))"
    by (simp add: booking_insert_def booking_pre_save_def n e split: option.splits)
  have bad: "booking_validate (cast_booking b) \<noteq> [] \<Longrightarrow>
      booking_insert db oid b = Inl (ValidationError [''email''])"
    using booking_validate_cases [of "cast_booking b"]
    by (auto simp: booking_insert_def n)
  have hook: "isNew d \<or> isModified d ''eventId'' \<Longrightarrow>
      booking_pre_save evs d =
        (case findById evs (eventId (doc d)) of
           None \<Rightarrow> Inl (EventMissing (eventId (doc d)))
         | Some e \<Rightarrow> Inr d)"
    by (auto simp: booking_pre_save_def)
  have skip: "\<not> isNew d \<and> \<not> isModified d ''eventId'' \<Longrightarrow> booking_pre_save evs d = Inr d"
    by (simp add: booking_pre_save_def)
  have fails: "findById (events db) (eventId b) = None \<Longrightarrow> \<exists>e. booking_insert db oid b = Inl e"
    using ok bad by (cases "booking_validate (cast_booking b) = []") auto
  show ?thesis
    using ok bad hook skip fails by (auto split: option.splits)
qed

theorem booking_requires_event_witness:
  "findById (events one_event) (eventId orphan_booking) = None \<and>
   booking_validate (cast_booking orphan_booking) = [] \<and>
   booking_insert one_event 9 orphan_booking = Inl (EventMissing 8) \<and>
   findById (events one_event) (eventId talk_booking) \<noteq> None \<and>
   booking_validate (cast_booking talk_booking) = [] \<and>
   booking_insert one_event 9 talk_booking =
     Inr (one_event\<lparr>bookings := [(9, \<lparr>eventId = 7, email = ''a@b.com''\<rparr>)]\<rparr>) \<and>
   isNew (new_booking orphan_booking) \<and>
   booking_pre_save (events one_event) (new_booking orphan_booking) = Inl (EventMissing 8) \<and>
   \<not> isNew saved_booking \<and> \<not> isModified saved_booking ''eventId'' \<and>
   booking_pre_save (events one_event) saved_booking = Inr saved_booking"
proof -
  have a: "findById (events one_event) (eventId orphan_booking) = None"
    "booking_validate (cast_booking orphan_booking) = []"
    "findById (events one_event) (eventId talk_booking) \<noteq> None"
    "booking_validate (cast_booking talk_booking) = []"
    "isNew (new_booking orphan_booking)"
    "\<not> isNew saved_booking" "\<not> isModified saved_booking ''eventId''"
    by code_simp+
  have v: "eventId orphan_booking = 8"
    "eventId (doc (new_booking orphan_booking)) = 8"
    "findById (events one_event) 8 = None"
    "bookings one_event @ [(9, cast_booking talk_booking)] = [(9, \<lparr>eventId = 7, email = ''a@b.com''\<rparr>)]"
    by code_simp+
  from booking_requires_event [of one_event orphan_booking 9 "new_booking orphan_booking" "events one_event"]
    booking_requires_event [of one_event talk_booking 9 saved_booking "events one_event"]
    a v show ?thesis
    by simp
qed

section \<open>The connection cache: theorems\<close>

lemma connect_begin_in_flight:
  "conn (cached w) = None \<Longrightarrow> promise (cached w) = Some p \<Longrightarrow> connect_begin w = (Await p, w)"
  by (simp add: connect_begin_def)

text \<open>
  C2: on a cache with no connection and no attempt in flight, two calls that both reach
  their \<^verbatim>\<open>await\<close> before the attempt settles wait for the same promise, and
  the counter of attempts has gone up by one; neither call continues while the promise
  is pending. When the attempt succeeds with a handle, both calls return that handle,
  and no further attempt was started.
\<close>

theorem single_flight:
  assumes "conn (cached w) = None" and "promise (cached w) = None"
  shows "\<exists>w1 w2. connect_begin w = (Await (attempts w), w1) \<and>
           connect_begin w1 = (Await (attempts w), w2) \<and>
           attempts w2 = attempts w + 1 \<and>
           (settled w (attempts w) = None \<longrightarrow> connect_resume (attempts w) w2 = None) \<and>
           (\<forall>h. \<exists>w3 w4.
              connect_resume (attempts w) (attempt_settles (attempts w) (Inr h) w2) =
                Some (Inr h, w3) \<and>
              connect_resume (attempts w) w3 = Some (Inr h, w4) \<and>
              attempts w4 = attempts w + 1 \<and> conn (cached w4) = Some h)"
  using assms
  by (simp add: connect_begin_def connect_resume_def attempt_settles_def)

theorem single_flight_witness:
  "conn (cached fresh_cache) = None \<and> promise (cached fresh_cache) = None \<and>
   settled fresh_cache (attempts fresh_cache) = None \<and>
   (\<exists>w1 w2. connect_begin fresh_cache = (Await 0, w1) \<and> connect_begin w1 = (Await 0, w2) \<and>
      attempts w2 = 1 \<and> connect_resume 0 w2 = None \<and>
      (\<exists>w3 w4. connect_resume 0 (attempt_settles 0 (Inr 5) w2) = Some (Inr 5, w3) \<and>
         connect_resume 0 w3 = Some (Inr 5, w4) \<and> attempts w4 = 1 \<and>
         conn (cached w4) = Some 5))"
proof -
  have a: "conn (cached fresh_cache) = None" "promise (cached fresh_cache) = None"
     "attempts fresh_cache = 0" "settled fresh_cache (attempts fresh_cache) = None"
    by (simp_all add: fresh_cache_def)
  from single_flight [OF a(1,2)] a(4) obtain w1 w2 where
    b: "connect_begin fresh_cache = (Await 0, w1)" "connect_begin w1 = (Await 0, w2)"
      "attempts w2 = 1" "connect_resume 0 w2 = None"
    and c: "\<forall>h. \<exists>w3 w4.
              connect_resume 0 (attempt_settles 0 (Inr h) w2) = Some (Inr h, w3) \<and>
              connect_resume 0 w3 = Some (Inr h, w4) \<and>
              attempts w4 = 1 \<and> conn (cached w4) = Some h"
    unfolding a(3) by auto
  from c obtain w3 w4 where
    "connect_resume 0 (attempt_settles 0 (Inr 5) w2) = Some (Inr 5, w3)"
    "connect_resume 0 w3 = Some (Inr 5, w4)" "attempts w4 = 1" "conn (cached w4) = Some 5"
    by blast
  with a b show ?thesis by blast
qed

text \<open>
  C3: when the attempt in flight fails, the promise slot is cleared and the connection
  slot stays empty; a call that waited for it throws the error, with the slots still
  empty, and so does every other call that waited; the next call starts a new attempt,
  whose promise is pending, whether it comes
  before or after the waiting call has continued. The promises handed out so far have
  numbers below the counter, and no promise from the counter on has settled.
\<close>

theorem failed_attempt_allows_retry:
  assumes "conn (cached w) = None" and "promise (cached w) = Some p"
    and "p < attempts w" and "settled w (attempts w) = None"
  shows "promise (cached (attempt_settles p (Inl msg) w)) = None \<and>
         conn (cached (attempt_settles p (Inl msg) w)) = None \<and>
         (\<exists>w1 w2. connect_resume p (attempt_settles p (Inl msg) w) =
                    Some (Inl (''Database connection error: '' @ msg), w1) \<and>
                  promise (cached w1) = None \<and> conn (cached w1) = None \<and>
                  connect_resume p w1 =
                    Some (Inl (''Database connection error: '' @ msg), w1) \<and>
                  connect_begin w1 = (Await (attempts w), w2) \<and>
                  attempts w2 = attempts w + 1 \<and>
                  promise (cached w2) = Some (attempts w) \<and>
                  connect_resume (attempts w) w2 = None) \<and>
         (\<exists>w2. connect_begin (attempt_settles p (Inl msg) w) = (Await (attempts w), w2) \<and>
               attempts w2 = attempts w + 1)"
  using assms
  by (simp add: connect_begin_def connect_resume_def attempt_settles_def)

theorem failed_attempt_allows_retry_witness:
  "conn (cached connecting) = None \<and> promise (cached connecting) = Some 0 \<and>
   0 < attempts connecting \<and> settled connecting (attempts connecting) = None \<and>
   promise (cached (attempt_settles 0 (Inl ''timeout'') connecting)) = None \<and>
   conn (cached (attempt_settles 0 (Inl ''timeout'') connecting)) = None \<and>
   (\<exists>w1 w2. connect_resume 0 (attempt_settles 0 (Inl ''timeout'') connecting) =
              Some (Inl ''Database connection error: timeout'', w1) \<and>
            connect_begin w1 = (Await 1, w2) \<and> attempts w2 = 2 \<and>
            connect_resume 1 w2 = None)"
proof -
  have a: "conn (cached connecting) = None" "promise (cached connecting) = Some 0"
    "0 < attempts connecting" "settled connecting (attempts connecting) = None"
    "attempts connecting = 1"
    by (simp_all add: connecting_def connect_begin_def fresh_cache_def)
  from failed_attempt_allows_retry [OF a(1-4), of "''timeout''"] a show ?thesis
    by auto
qed

end
